theory Spec2Isabelle
  imports Main
begin

section \<open>The configuration facade of \<^verbatim>\<open>src/internal/config/main.go\<close>\<close>

text \<open>
  The Go file holds the operator's \<^verbatim>\<open>Config\<close>: a store for the detected availability of the
  OpenShift Routes API (guarded by a mutex), the detected autoscaling version, a registry of
  change callbacks, and the detection pass \<^verbatim>\<open>AutoDetect\<close> with its start-up entry point
  \<^verbatim>\<open>StartAutoDetect\<close>.

  The embedding is sequential. A method with a pointer receiver takes the receiver and returns
  it updated. Everything outside the \<^verbatim>\<open>Config\<close> (the cluster the probes look at, whatever the
  callbacks do) is an environment of an arbitrary type \<open>'e\<close> that probes and callbacks read and
  change. Calls that leave the \<^verbatim>\<open>Config\<close> are also written to a trace, in the order the code
  makes them, so that properties such as \<^emph>\<open>not queried\<close>, \<^emph>\<open>no Set\<close> and \<^emph>\<open>exactly once\<close> can
  be stated. A probe or a callback acts on the environment only; one that calls back into
  the \<^verbatim>\<open>Config\<close> from inside a pass is outside the model.
\<close>

subsection \<open>Values of the \<^verbatim>\<open>autodetect\<close> package\<close>

text \<open>A Go \<^verbatim>\<open>error\<close> value is opaque; it is modelled by its message. The nil error is
  \<open>None\<close> of \<open>error option\<close>.\<close>

datatype error = Error string

text \<open>Modelled from the spec: the declaration of \<^verbatim>\<open>autodetect.OpenShiftRoutesAvailability\<close>
  is not part of the file; the spec describes a tri-state enum (Unknown, Available,
  NotAvailable). The file itself names \<^verbatim>\<open>autodetect.OpenShiftRoutesNotAvailable\<close>.\<close>

datatype OpenShiftRoutesAvailability =
    OpenShiftRoutesUnknown
  | OpenShiftRoutesAvailable
  | OpenShiftRoutesNotAvailable

text \<open>Modelled from the spec: the declaration of \<^verbatim>\<open>autodetect.AutoscalingVersion\<close> is not part
  of the file; the spec lists the versions V1, V2, V2Beta1, V2Beta2.\<close>

datatype AutoscalingVersion =
    AutoscalingVersionV1
  | AutoscalingVersionV2
  | AutoscalingVersionV2Beta1
  | AutoscalingVersionV2Beta2

text \<open>Modelled from the spec: the constant \<^verbatim>\<open>autodetect.DefaultAutoscalingVersion\<close> is not part
  of the file; the spec calls it a configured default and its scenario starts from V2. No
  theorem below depends on which version it is.\<close>

definition DefaultAutoscalingVersion :: AutoscalingVersion where
  "DefaultAutoscalingVersion = AutoscalingVersionV2"

text \<open>The interface \<^verbatim>\<open>autodetect.AutoDetect\<close>, of which the file calls two methods. Each returns
  a value or an error, and may change the environment it inspects.\<close>

record 'e autodetect_AutoDetect =
  OpenShiftRoutesAvailability :: "'e \<Rightarrow> (error + OpenShiftRoutesAvailability) \<times> 'e"
  HPAVersion :: "'e \<Rightarrow> (error + AutoscalingVersion) \<times> 'e"

subsection \<open>The world outside the \<^verbatim>\<open>Config\<close>\<close>

text \<open>One event per call that leaves the \<^verbatim>\<open>Config\<close>: a log line (verbosity and message; the
  key/value pairs are left out), a probe with the result it gave, a \<^verbatim>\<open>Get\<close> or \<^verbatim>\<open>Set\<close> of the
  routes store, a callback (its position in the registry and what it returned), and the launch
  of the goroutine running \<^verbatim>\<open>periodicAutoDetect\<close>.\<close>

datatype event =
    LogInfo nat string
  | LogError error string
  | ProbeRoutes "error + OpenShiftRoutesAvailability"
  | ProbeHPA "error + AutoscalingVersion"
  | StoreGet OpenShiftRoutesAvailability
  | StoreSet OpenShiftRoutesAvailability
  | CallbackInvoked nat "error option"
  | GoPeriodicAutoDetect

record 'e world =
  env :: 'e
  trace :: "event list"

definition emit :: "event \<Rightarrow> 'e world \<Rightarrow> 'e world" where
  "emit ev w = w\<lparr>trace := trace w @ [ev]\<rparr>"

text \<open>What stops a call from returning: a method call on a nil interface value panics, a
  \<^verbatim>\<open>Lock\<close> of a mutex that is held waits (in a sequential run, for ever), and an \<^verbatim>\<open>Unlock\<close> of a
  mutex that is not held is a fatal runtime error.\<close>

datatype fault = NilDereference | Blocked | UnlockOfUnlockedMutex

subsection \<open>\<^verbatim>\<open>sync.Mutex\<close> and the routes store\<close>

record Mutex =
  locked :: bool

definition Mutex_Lock :: "Mutex \<Rightarrow> fault + Mutex" where
  "Mutex_Lock m = (if locked m then Inl Blocked else Inr (m\<lparr>locked := True\<rparr>))"

definition Mutex_Unlock :: "Mutex \<Rightarrow> fault + Mutex" where
  "Mutex_Unlock m = (if locked m then Inr (m\<lparr>locked := False\<rparr>) else Inl UnlockOfUnlockedMutex)"

record openshiftRoutesWrapper =
  mu :: Mutex
  current :: OpenShiftRoutesAvailability

definition newOpenShiftRoutesWrapper :: openshiftRoutesWrapper where
  "newOpenShiftRoutesWrapper =
     \<lparr>mu = \<lparr>locked = False\<rparr>, current = OpenShiftRoutesNotAvailable\<rparr>"

text \<open>\<^verbatim>\<open>Set\<close>: lock, assign, unlock.\<close>

definition openshiftRoutesWrapper_Set ::
  "openshiftRoutesWrapper \<Rightarrow> OpenShiftRoutesAvailability \<Rightarrow> fault + openshiftRoutesWrapper" where
  "openshiftRoutesWrapper_Set p ora =
     (case Mutex_Lock (mu p) of
        Inl f \<Rightarrow> Inl f
      | Inr m1 \<Rightarrow>
          (let p1 = p\<lparr>mu := m1\<rparr>;
               p2 = p1\<lparr>current := ora\<rparr>
           in case Mutex_Unlock (mu p2) of
                Inl f \<Rightarrow> Inl f
              | Inr m2 \<Rightarrow> Inr (p2\<lparr>mu := m2\<rparr>)))"

text \<open>\<^verbatim>\<open>Get\<close>: lock, read into \<^verbatim>\<open>ora\<close>, unlock, return \<^verbatim>\<open>ora\<close>.\<close>

definition openshiftRoutesWrapper_Get ::
  "openshiftRoutesWrapper \<Rightarrow> fault + (OpenShiftRoutesAvailability \<times> openshiftRoutesWrapper)" where
  "openshiftRoutesWrapper_Get p =
     (case Mutex_Lock (mu p) of
        Inl f \<Rightarrow> Inl f
      | Inr m1 \<Rightarrow>
          (let p1 = p\<lparr>mu := m1\<rparr>;
               ora = current p1
           in case Mutex_Unlock (mu p1) of
                Inl f \<Rightarrow> Inl f
              | Inr m2 \<Rightarrow> Inr (ora, p1\<lparr>mu := m2\<rparr>)))"

subsection \<open>The change handler\<close>

text \<open>Modelled from the spec: the type \<^verbatim>\<open>changeHandler\<close> and its constructor \<^verbatim>\<open>newOnChange\<close> are
  declared in another file of the package. The spec (ChangeNotifier) describes a registry of
  zero or more callbacks, each a zero-argument operation that may fail.\<close>

type_synonym 'e callback = "'e \<Rightarrow> error option \<times> 'e"

record 'e onChange =
  callbacks :: "'e callback list"

definition newOnChange :: "'e onChange" where
  "newOnChange = \<lparr>callbacks = []\<rparr>"

text \<open>Modelled from the spec: \<^verbatim>\<open>Register\<close> is not part of the file; the spec says it appends the
  callback to an ordered collection.\<close>

definition onChange_Register :: "'e onChange \<Rightarrow> 'e callback \<Rightarrow> 'e onChange" where
  "onChange_Register h f = h\<lparr>callbacks := callbacks h @ [f]\<rparr>"

text \<open>Modelled from the spec: \<^verbatim>\<open>Do\<close> (the spec's Invoke) is not part of the file; the spec says
  it calls every registered callback in registration order, goes on with the remaining
  callbacks when one fails, and returns a single representative error. The spec leaves open
  which error that is; the model returns the first one.\<close>

fun invoke_from :: "nat \<Rightarrow> 'e callback list \<Rightarrow> 'e world \<Rightarrow> error option \<times> 'e world" where
  "invoke_from i [] w = (None, w)"
| "invoke_from i (fn # fns) w =
     (let (err, e1) = fn (env w);
          w1 = emit (CallbackInvoked i err) (w\<lparr>env := e1\<rparr>);
          (rest, w2) = invoke_from (Suc i) fns w1
      in (case err of None \<Rightarrow> rest | Some x \<Rightarrow> Some x, w2))"

definition onChange_Do :: "'e onChange \<Rightarrow> 'e world \<Rightarrow> error option \<times> 'e world" where
  "onChange_Do h w = invoke_from 0 (callbacks h) w"

subsection \<open>\<^verbatim>\<open>Config\<close> and \<^verbatim>\<open>New\<close>\<close>

text \<open>The fields of \<^verbatim>\<open>Config\<close>, in the order of the struct. An interface field that \<^verbatim>\<open>New\<close>
  may leave nil (\<^verbatim>\<open>autoDetect\<close>) is an option. The logger is modelled by its name, a duration
  by its nanoseconds.\<close>

record 'e Config =
  autoDetect :: "'e autodetect_AutoDetect option"
  logger :: string
  autoInstrumentationPythonImage :: string
  autoInstrumentationDotNetImage :: string
  autoInstrumentationNodeJSImage :: string
  autoInstrumentationJavaImage :: string
  autoInstrumentationGoImage :: string
  autoInstrumentationPhpImage :: string
  autoInstrumentationRubyImage :: string
  onOpenShiftRoutesChange :: "'e onChange"
  labelsFilter :: "string list"
  openshiftRoutes :: openshiftRoutesWrapper
  autoDetectFrequency :: int
  autoscalingVersion :: AutoscalingVersion

definition defaultAutoDetectFrequency :: int where
  "defaultAutoDetectFrequency = 5 * 1000000000"

text \<open>The struct \<^verbatim>\<open>options\<close> is declared in another file of the package; its fields are the ones
  \<^verbatim>\<open>New\<close> reads and writes. Its field \<^verbatim>\<open>version\<close> (build information) is never copied into the
  \<^verbatim>\<open>Config\<close> and is left out. An \<^verbatim>\<open>Option\<close> is a function that updates the options.\<close>

record 'e options =
  o_autoDetect :: "'e autodetect_AutoDetect option"
  o_logger :: string
  o_autoInstrumentationPythonImage :: string
  o_autoInstrumentationDotNetImage :: string
  o_autoInstrumentationNodeJSImage :: string
  o_autoInstrumentationJavaImage :: string
  o_autoInstrumentationGoImage :: string
  o_autoInstrumentationPhpImage :: string
  o_autoInstrumentationRubyImage :: string
  o_onOpenShiftRoutesChange :: "'e onChange"
  o_labelsFilter :: "string list"
  o_openshiftRoutes :: openshiftRoutesWrapper
  o_autoDetectFrequency :: int
  o_autoscalingVersion :: AutoscalingVersion

type_synonym 'e Option = "'e options \<Rightarrow> 'e options"

text \<open>The defaults \<^verbatim>\<open>New\<close> starts from; a field the literal does not name has Go's zero value.\<close>

definition default_options :: "'e options" where
  "default_options =
     \<lparr>o_autoDetect = None,
      o_logger = ''config'',
      o_autoInstrumentationPythonImage = [],
      o_autoInstrumentationDotNetImage = [],
      o_autoInstrumentationNodeJSImage = [],
      o_autoInstrumentationJavaImage = [],
      o_autoInstrumentationGoImage = [],
      o_autoInstrumentationPhpImage = [],
      o_autoInstrumentationRubyImage = [],
      o_onOpenShiftRoutesChange = newOnChange,
      o_labelsFilter = [],
      o_openshiftRoutes = newOpenShiftRoutesWrapper,
      o_autoDetectFrequency = defaultAutoDetectFrequency,
      o_autoscalingVersion = DefaultAutoscalingVersion\<rparr>"

definition New :: "'e Option list \<Rightarrow> 'e Config" where
  "New opts =
     (let o1 = foldl (\<lambda>acc opt. opt acc) default_options opts
      in \<lparr>autoDetect = o_autoDetect o1,
          logger = o_logger o1,
          autoInstrumentationPythonImage = o_autoInstrumentationPythonImage o1,
          autoInstrumentationDotNetImage = o_autoInstrumentationDotNetImage o1,
          autoInstrumentationNodeJSImage = o_autoInstrumentationNodeJSImage o1,
          autoInstrumentationJavaImage = o_autoInstrumentationJavaImage o1,
          autoInstrumentationGoImage = o_autoInstrumentationGoImage o1,
          autoInstrumentationPhpImage = o_autoInstrumentationPhpImage o1,
          autoInstrumentationRubyImage = o_autoInstrumentationRubyImage o1,
          onOpenShiftRoutesChange = o_onOpenShiftRoutesChange o1,
          labelsFilter = o_labelsFilter o1,
          openshiftRoutes = o_openshiftRoutes o1,
          autoDetectFrequency = o_autoDetectFrequency o1,
          autoscalingVersion = o_autoscalingVersion o1\<rparr>)"

subsection \<open>The detection pass\<close>

text \<open>\<^verbatim>\<open>AutoDetect\<close>, statement by statement. The result is a fault when the call does not
  return, and otherwise the returned error with the updated \<^verbatim>\<open>Config\<close> and world.\<close>

definition AutoDetect ::
  "'e Config \<Rightarrow> 'e world \<Rightarrow> fault + (error option \<times> 'e Config \<times> 'e world)" where
  "AutoDetect c w =
     (let w1 = emit (LogInfo 2 ''auto-detecting the configuration based on the environment'') w
      in case autoDetect c of
           None \<Rightarrow> Inl NilDereference
         | Some ad \<Rightarrow>
       (let (r1, e1) = OpenShiftRoutesAvailability ad (env w1);
            w2 = emit (ProbeRoutes r1) (w1\<lparr>env := e1\<rparr>)
        in case r1 of
             Inl err \<Rightarrow> Inr (Some err, c, w2)
           | Inr ora \<Rightarrow>
         (case openshiftRoutesWrapper_Get (openshiftRoutes c) of
            Inl f \<Rightarrow> Inl f
          | Inr (cur, p1) \<Rightarrow>
         (let c1 = c\<lparr>openshiftRoutes := p1\<rparr>;
              w3 = emit (StoreGet cur) w2
          in case
               (if cur \<noteq> ora then
                  (let w4 = emit (LogInfo 1 ''openshift routes detected'') w3
                   in case openshiftRoutesWrapper_Set (openshiftRoutes c1) ora of
                        Inl f \<Rightarrow> Inl f
                      | Inr p2 \<Rightarrow>
                          (let c2 = c1\<lparr>openshiftRoutes := p2\<rparr>;
                               w5 = emit (StoreSet ora) w4;
                               (err, w6) = onChange_Do (onOpenShiftRoutesChange c2) w5;
                               w7 = (case err of
                                       None \<Rightarrow> w6
                                     | Some x \<Rightarrow>
                                         emit (LogError x
                                           ''configuration change notification failed for callback'') w6)
                           in Inr (c2, w7)))
                else Inr (c1, w3))
             of
               Inl f \<Rightarrow> Inl f
             | Inr (c3, w8) \<Rightarrow>
           (let (r2, e2) = HPAVersion ad (env w8);
                w9 = emit (ProbeHPA r2) (w8\<lparr>env := e2\<rparr>)
            in case r2 of
                 Inl err \<Rightarrow> Inr (Some err, c3, w9)
               | Inr hpaVersion \<Rightarrow>
                   (let c4 = c3\<lparr>autoscalingVersion := hpaVersion\<rparr>;
                        w10 = emit (LogInfo 2 ''autoscaling version detected'') w9
                    in Inr (None, c4, w10)))))))"

text \<open>\<^verbatim>\<open>StartAutoDetect\<close>: one pass, then the \<^verbatim>\<open>go\<close> statement, then the pass's error is
  returned. What the goroutine does afterwards runs concurrently and is not part of this
  function's result; only its launch is.\<close>

definition StartAutoDetect ::
  "'e Config \<Rightarrow> 'e world \<Rightarrow> fault + (error option \<times> 'e Config \<times> 'e world)" where
  "StartAutoDetect c w =
     (case AutoDetect c w of
        Inl f \<Rightarrow> Inl f
      | Inr (err, c1, w1) \<Rightarrow> Inr (err, c1, emit GoPeriodicAutoDetect w1))"

text \<open>\<^verbatim>\<open>periodicAutoDetect\<close>: one pass for every tick of the ticker; an error of the pass is
  logged and the loop goes on. The loop has no exit, so the model gives what it has done
  after the first \<open>n\<close> ticks. It runs in its own goroutine, on the same \<^verbatim>\<open>Config\<close>; the
  interleaving with other goroutines is outside this sequential model.\<close>

fun periodicAutoDetect :: "nat \<Rightarrow> 'e Config \<Rightarrow> 'e world \<Rightarrow> fault + ('e Config \<times> 'e world)" where
  "periodicAutoDetect 0 c w = Inr (c, w)"
| "periodicAutoDetect (Suc n) c w =
     (case AutoDetect c w of
        Inl f \<Rightarrow> Inl f
      | Inr (err, c1, w1) \<Rightarrow>
          periodicAutoDetect n c1
            (case err of
               None \<Rightarrow> w1
             | Some x \<Rightarrow> emit (LogInfo 0 ''auto-detection failed'') w1))"

text \<open>The accessors.\<close>

definition OpenShiftRoutes ::
  "'e Config \<Rightarrow> fault + (OpenShiftRoutesAvailability \<times> 'e Config)" where
  "OpenShiftRoutes c =
     (case openshiftRoutesWrapper_Get (openshiftRoutes c) of
        Inl f \<Rightarrow> Inl f
      | Inr (ora, p) \<Rightarrow> Inr (ora, c\<lparr>openshiftRoutes := p\<rparr>))"

definition AutoscalingVersion :: "'e Config \<Rightarrow> AutoscalingVersion" where
  "AutoscalingVersion c = autoscalingVersion c"

definition RegisterOpenShiftRoutesChangeCallback :: "'e Config \<Rightarrow> 'e callback \<Rightarrow> 'e Config" where
  "RegisterOpenShiftRoutesChangeCallback c f =
     c\<lparr>onOpenShiftRoutesChange := onChange_Register (onOpenShiftRoutesChange c) f\<rparr>"

subsection \<open>Reading a trace\<close>

text \<open>The events a call added to the trace, and the projections of a list of events that the
  properties below speak about: the results of the routes probes, the results of the
  autoscaling probes, the values given to \<^verbatim>\<open>Set\<close>, and the callbacks with their results.\<close>

definition new_events :: "'e world \<Rightarrow> 'e world \<Rightarrow> event list" where
  "new_events w w' = drop (length (trace w)) (trace w')"

fun routes_probes :: "event list \<Rightarrow> (error + OpenShiftRoutesAvailability) list" where
  "routes_probes [] = []"
| "routes_probes (ProbeRoutes r # evs) = r # routes_probes evs"
| "routes_probes (_ # evs) = routes_probes evs"

fun hpa_probes :: "event list \<Rightarrow> (error + AutoscalingVersion) list" where
  "hpa_probes [] = []"
| "hpa_probes (ProbeHPA r # evs) = r # hpa_probes evs"
| "hpa_probes (_ # evs) = hpa_probes evs"

fun store_sets :: "event list \<Rightarrow> OpenShiftRoutesAvailability list" where
  "store_sets [] = []"
| "store_sets (StoreSet ora # evs) = ora # store_sets evs"
| "store_sets (_ # evs) = store_sets evs"

fun callback_results :: "event list \<Rightarrow> (nat \<times> error option) list" where
  "callback_results [] = []"
| "callback_results (CallbackInvoked i r # evs) = (i, r) # callback_results evs"
| "callback_results (_ # evs) = callback_results evs"

text \<open>The events that running the callbacks \<open>fs\<close> from the environment \<open>e\<close> amounts to,
  when each is called once, in the order of the list, whatever it returns; \<open>i\<close> is the
  position of the first one.\<close>

fun callback_events :: "nat \<Rightarrow> 'e callback list \<Rightarrow> 'e \<Rightarrow> event list" where
  "callback_events i [] e = []"
| "callback_events i (fn # fns) e =
     CallbackInvoked i (fst (fn e)) # callback_events (Suc i) fns (snd (fn e))"

text \<open>The environment after running callbacks one after the other, each once.\<close>

definition run_in_order :: "'e callback list \<Rightarrow> 'e \<Rightarrow> 'e" where
  "run_in_order fs e = foldl (\<lambda>acc f. snd (f acc)) e fs"

subsection \<open>Example configurations\<close>

text \<open>Concrete probes, callbacks and configurations on which the theorems are instantiated.
  The environment is the list of the numbers that probes and callbacks leave behind: the
  routes probe writes 100, the autoscaling probe 200, and callback \<open>k\<close> writes \<open>k\<close>.\<close>

definition probe_both_ok :: "nat list autodetect_AutoDetect" where
  "probe_both_ok =
     \<lparr>OpenShiftRoutesAvailability = (\<lambda>e. (Inr OpenShiftRoutesAvailable, e @ [100])),
      HPAVersion = (\<lambda>e. (Inr AutoscalingVersionV1, e @ [200]))\<rparr>"

definition probe_routes_down :: "nat list autodetect_AutoDetect" where
  "probe_routes_down =
     \<lparr>OpenShiftRoutesAvailability = (\<lambda>e. (Inl (Error ''routes probe failed''), e @ [100])),
      HPAVersion = (\<lambda>e. (Inr AutoscalingVersionV1, e @ [200]))\<rparr>"

definition probe_hpa_down :: "nat list autodetect_AutoDetect" where
  "probe_hpa_down =
     \<lparr>OpenShiftRoutesAvailability = (\<lambda>e. (Inr OpenShiftRoutesAvailable, e @ [100])),
      HPAVersion = (\<lambda>e. (Inl (Error ''autoscaling probe failed''), e @ [200]))\<rparr>"

definition probe_not_available :: "nat list autodetect_AutoDetect" where
  "probe_not_available =
     \<lparr>OpenShiftRoutesAvailability = (\<lambda>e. (Inr OpenShiftRoutesNotAvailable, e @ [100])),
      HPAVersion = (\<lambda>e. (Inr AutoscalingVersionV1, e @ [200]))\<rparr>"

definition callback_ok :: "nat \<Rightarrow> nat list callback" where
  "callback_ok k = (\<lambda>e. (None, e @ [k]))"

definition callback_failing :: "nat \<Rightarrow> nat list callback" where
  "callback_failing k = (\<lambda>e. (Some (Error ''callback failed''), e @ [k]))"

text \<open>An option that installs the probe, and a configuration built the way a caller builds
  one: \<^verbatim>\<open>New\<close> with that option, then the callbacks registered one by one.\<close>

definition with_probe :: "'e autodetect_AutoDetect \<Rightarrow> 'e Option" where
  "with_probe ad = (\<lambda>opts. opts\<lparr>o_autoDetect := Some ad\<rparr>)"

definition example_config ::
  "nat list autodetect_AutoDetect \<Rightarrow> nat list callback list \<Rightarrow> nat list Config" where
  "example_config ad fs = foldl RegisterOpenShiftRoutesChangeCallback (New [with_probe ad]) fs"

definition start_world :: "nat list world" where
  "start_world = \<lparr>env = [], trace = []\<rparr>"

section \<open>Properties\<close>

subsection \<open>The routes store\<close>

lemma Get_unlocked:
  "\<not> locked (mu p) \<Longrightarrow> openshiftRoutesWrapper_Get p = Inr (current p, p)"
  by (simp add: openshiftRoutesWrapper_Get_def Mutex_Lock_def Mutex_Unlock_def)

lemma Set_unlocked:
  "\<not> locked (mu p) \<Longrightarrow> openshiftRoutesWrapper_Set p ora = Inr (p\<lparr>current := ora\<rparr>)"
  by (simp add: openshiftRoutesWrapper_Set_def Mutex_Lock_def Mutex_Unlock_def)

lemma Get_locked: "locked (mu p) \<Longrightarrow> openshiftRoutesWrapper_Get p = Inl Blocked"
  by (simp add: openshiftRoutesWrapper_Get_def Mutex_Lock_def)

text \<open>
  \<^bold>\<open>C9.\<close> For every value \<open>v\<close> and every store whose mutex is free, \<^verbatim>\<open>Set(v)\<close> completes, and a
  \<^verbatim>\<open>Get\<close> that follows it with no \<^verbatim>\<open>Set\<close> in between completes and returns exactly \<open>v\<close>. The
  \<^verbatim>\<open>Get\<close> leaves the store as the \<^verbatim>\<open>Set\<close> left it, so every later \<^verbatim>\<open>Get\<close> returns \<open>v\<close> as
  well.
\<close>

theorem Get_after_Set:
  assumes "\<not> locked (mu p)"
  shows "\<exists>p'. openshiftRoutesWrapper_Set p v = Inr p' \<and>
              openshiftRoutesWrapper_Get p' = Inr (v, p')"
  using assms by (simp add: Set_unlocked Get_unlocked)

theorem Get_after_Set_witness:
  "\<not> locked (mu newOpenShiftRoutesWrapper) \<and>
   openshiftRoutesWrapper_Set newOpenShiftRoutesWrapper OpenShiftRoutesAvailable =
     Inr \<lparr>mu = \<lparr>locked = False\<rparr>, current = OpenShiftRoutesAvailable\<rparr> \<and>
   openshiftRoutesWrapper_Get \<lparr>mu = \<lparr>locked = False\<rparr>, current = OpenShiftRoutesAvailable\<rparr> =
     Inr (OpenShiftRoutesAvailable, \<lparr>mu = \<lparr>locked = False\<rparr>, current = OpenShiftRoutesAvailable\<rparr>)"
  using Get_after_Set [of newOpenShiftRoutesWrapper OpenShiftRoutesAvailable]
  by (simp add: newOpenShiftRoutesWrapper_def openshiftRoutesWrapper_Set_def
      openshiftRoutesWrapper_Get_def Mutex_Lock_def Mutex_Unlock_def)

subsection \<open>Construction\<close>

text \<open>
  \<^bold>\<open>C8.\<close> A \<^verbatim>\<open>Config\<close> that \<^verbatim>\<open>New\<close> has just built, before any detection pass, reports the
  routes API as not available and has the default autoscaling version. \<^verbatim>\<open>New\<close> applies its
  options after the defaults, and what an option does is not part of the file; the theorem
  covers every list of options that leave the routes store and the autoscaling version of
  the options alone, the empty list among them. The accessor \<^verbatim>\<open>OpenShiftRoutes\<close> completes,
  since the new store's mutex is free.
\<close>

theorem New_initial_state:
  assumes "\<forall>opt \<in> set opts. \<forall>x. o_openshiftRoutes (opt x) = o_openshiftRoutes x \<and>
                                   o_autoscalingVersion (opt x) = o_autoscalingVersion x"
  shows "OpenShiftRoutes (New opts) = Inr (OpenShiftRoutesNotAvailable, New opts) \<and>
         AutoscalingVersion (New opts) = DefaultAutoscalingVersion"
proof -
  have "o_openshiftRoutes (foldl (\<lambda>acc opt. opt acc) x opts) = o_openshiftRoutes x \<and>
        o_autoscalingVersion (foldl (\<lambda>acc opt. opt acc) x opts) = o_autoscalingVersion x" for x
    using assms by (induction opts arbitrary: x) simp_all
  from this [of default_options]
  have "openshiftRoutes (New opts) = newOpenShiftRoutesWrapper"
       "autoscalingVersion (New opts) = DefaultAutoscalingVersion"
    by (simp_all add: New_def default_options_def Let_def)
  then show ?thesis
    by (simp add: OpenShiftRoutes_def AutoscalingVersion_def Get_unlocked
        newOpenShiftRoutesWrapper_def)
qed

theorem New_initial_state_witness:
  "(\<forall>x. o_openshiftRoutes (with_probe probe_both_ok x) = o_openshiftRoutes x \<and>
        o_autoscalingVersion (with_probe probe_both_ok x) = o_autoscalingVersion x) \<and>
   OpenShiftRoutes (New [with_probe probe_both_ok]) =
     Inr (OpenShiftRoutesNotAvailable, New [with_probe probe_both_ok]) \<and>
   AutoscalingVersion (New [with_probe probe_both_ok]) = DefaultAutoscalingVersion \<and>
   OpenShiftRoutes (New ([] :: nat list Option list)) =
     Inr (OpenShiftRoutesNotAvailable, New []) \<and>
   AutoscalingVersion (New ([] :: nat list Option list)) = DefaultAutoscalingVersion"
  using New_initial_state [of "[with_probe probe_both_ok]"]
        New_initial_state [of "[] :: nat list Option list"]
  by (simp add: with_probe_def)

subsection \<open>Projections of a trace\<close>

lemma routes_probes_append [simp]:
  "routes_probes (xs @ ys) = routes_probes xs @ routes_probes ys"
  by (induction xs rule: routes_probes.induct) simp_all

lemma hpa_probes_append [simp]:
  "hpa_probes (xs @ ys) = hpa_probes xs @ hpa_probes ys"
  by (induction xs rule: hpa_probes.induct) simp_all

lemma store_sets_append [simp]:
  "store_sets (xs @ ys) = store_sets xs @ store_sets ys"
  by (induction xs rule: store_sets.induct) simp_all

lemma callback_results_append [simp]:
  "callback_results (xs @ ys) = callback_results xs @ callback_results ys"
  by (induction xs rule: callback_results.induct) simp_all

lemma new_events_extend [simp]:
  "new_events w (w0\<lparr>env := e, trace := trace w @ evs\<rparr>) = evs"
  by (simp add: new_events_def)

subsection \<open>The change handler runs every callback, in order\<close>

text \<open>
  The loop of \<^verbatim>\<open>Do\<close> leaves exactly the events of \<open>callback_events\<close> and the environment of
  \<open>run_in_order\<close>; it returns an error exactly when some callback did.
\<close>

lemma invoke_from_env:
  "env (snd (invoke_from i fs w)) = run_in_order fs (env w)"
  by (induction fs arbitrary: i w)
     (simp_all add: run_in_order_def emit_def split_def Let_def)

lemma invoke_from_trace:
  "trace (snd (invoke_from i fs w)) = trace w @ callback_events i fs (env w)"
  by (induction fs arbitrary: i w) (simp_all add: emit_def split_def Let_def)

lemma invoke_from_error:
  "fst (invoke_from i fs w) = None \<longleftrightarrow>
     snd ` set (callback_results (callback_events i fs (env w))) \<subseteq> {None}"
proof (induction fs arbitrary: i w)
  case Nil
  show ?case by simp
next
  case (Cons f fs)
  show ?case
    using Cons.IH [of "Suc i" "emit (CallbackInvoked i (fst (f (env w)))) (w\<lparr>env := snd (f (env w))\<rparr>)"]
    by (cases "fst (f (env w))") (simp_all add: split_def Let_def emit_def)
qed

lemma length_callback_events [simp]: "length (callback_events i fs e) = length fs"
  by (induction fs arbitrary: i e) simp_all

lemma callback_events_indices:
  "map fst (callback_results (callback_events i fs e)) = [i..<i + length fs]"
proof (induction fs arbitrary: i e)
  case Nil
  show ?case by simp
next
  case (Cons f fs)
  have "[i..<i + length (f # fs)] = i # [Suc i..<Suc i + length fs]"
    using upt_conv_Cons [of i "i + length (f # fs)"] by simp
  with Cons.IH [of "Suc i" "snd (f e)"] show ?case
    by (simp del: upt_Suc)
qed

lemma callback_events_no_other [simp]:
  "store_sets (callback_events i fs e) = []"
  "hpa_probes (callback_events i fs e) = []"
  "routes_probes (callback_events i fs e) = []"
  by (induction fs arbitrary: i e) simp_all

lemma onChange_Do_env:
  "onChange_Do h w = (errD, wD) \<Longrightarrow> env wD = run_in_order (callbacks h) (env w)"
  using invoke_from_env [of 0 "callbacks h" w] by (simp add: onChange_Do_def)

lemma onChange_Do_trace:
  "onChange_Do h w = (errD, wD) \<Longrightarrow>
     trace wD = trace w @ callback_events 0 (callbacks h) (env w)"
  using invoke_from_trace [of 0 "callbacks h" w] by (simp add: onChange_Do_def)

lemma onChange_Do_error:
  "onChange_Do h w = (errD, wD) \<Longrightarrow>
     errD = None \<longleftrightarrow>
       snd ` set (callback_results (callback_events 0 (callbacks h) (env w))) \<subseteq> {None}"
  using invoke_from_error [of 0 "callbacks h" w] by (simp add: onChange_Do_def)

lemma Register_foldl:
  "callbacks (onOpenShiftRoutesChange (foldl RegisterOpenShiftRoutesChangeCallback c fs)) =
     callbacks (onOpenShiftRoutesChange c) @ fs \<and>
   autoDetect (foldl RegisterOpenShiftRoutesChangeCallback c fs) = autoDetect c \<and>
   openshiftRoutes (foldl RegisterOpenShiftRoutesChangeCallback c fs) = openshiftRoutes c \<and>
   autoscalingVersion (foldl RegisterOpenShiftRoutesChangeCallback c fs) = autoscalingVersion c"
  by (induction fs arbitrary: c)
     (simp_all add: RegisterOpenShiftRoutesChangeCallback_def onChange_Register_def)

subsection \<open>The ways a pass ends\<close>

text \<open>
  A pass does not return when the probe is nil or when the mutex of the store is held.
  Otherwise it returns in one of three ways: the routes probe failed; the routes probe gave
  the value the store holds; the routes probe gave a new value. Each lemma gives the returned
  error, the \<^verbatim>\<open>Config\<close> and the world in full.
\<close>

lemma AutoDetect_nil_probe:
  "autoDetect c = None \<Longrightarrow> AutoDetect c w = Inl NilDereference"
  by (simp add: AutoDetect_def)

lemma AutoDetect_blocked:
  assumes "autoDetect c = Some ad"
      and "locked (mu (openshiftRoutes c))"
      and "OpenShiftRoutesAvailability ad (env w) = (Inr ora, e1)"
  shows "AutoDetect c w = Inl Blocked"
  using assms by (simp add: AutoDetect_def emit_def Get_locked)

lemma AutoDetect_routes_error:
  assumes "autoDetect c = Some ad"
      and "OpenShiftRoutesAvailability ad (env w) = (Inl e, e1)"
  shows "AutoDetect c w =
           Inr (Some e, c,
                w\<lparr>env := e1,
                  trace := trace w @
                    [LogInfo 2 ''auto-detecting the configuration based on the environment'',
                     ProbeRoutes (Inl e)]\<rparr>)"
  using assms by (simp add: AutoDetect_def emit_def)

lemma AutoDetect_same_value:
  assumes "autoDetect c = Some ad"
      and "\<not> locked (mu (openshiftRoutes c))"
      and "OpenShiftRoutesAvailability ad (env w) = (Inr ora, e1)"
      and "current (openshiftRoutes c) = ora"
      and "HPAVersion ad e1 = (r2, e2)"
  shows "AutoDetect c w =
           Inr (case r2 of Inl x \<Rightarrow> Some x | Inr v \<Rightarrow> None,
                case r2 of Inl x \<Rightarrow> c | Inr v \<Rightarrow> c\<lparr>autoscalingVersion := v\<rparr>,
                w\<lparr>env := e2,
                  trace := trace w @
                    [LogInfo 2 ''auto-detecting the configuration based on the environment'',
                     ProbeRoutes (Inr ora), StoreGet ora, ProbeHPA r2] @
                    (case r2 of Inl x \<Rightarrow> []
                     | Inr v \<Rightarrow> [LogInfo 2 ''autoscaling version detected''])\<rparr>)"
  using assms
  by (cases r2) (simp_all add: AutoDetect_def emit_def Get_unlocked)

lemma AutoDetect_new_value:
  assumes "autoDetect c = Some ad"
      and "\<not> locked (mu (openshiftRoutes c))"
      and "OpenShiftRoutesAvailability ad (env w) = (Inr ora, e1)"
      and "current (openshiftRoutes c) \<noteq> ora"
      and "onChange_Do (onOpenShiftRoutesChange c)
             (w\<lparr>env := e1, trace := trace w @ [LogInfo 2 ''auto-detecting the configuration based on the environment'',
               ProbeRoutes (Inr ora), StoreGet (current (openshiftRoutes c)),
               LogInfo 1 ''openshift routes detected'', StoreSet ora]\<rparr>) = (errD, wD)"
      and "HPAVersion ad (env wD) = (r2, e2)"
  shows "AutoDetect c w =
           Inr (case r2 of Inl x \<Rightarrow> Some x | Inr v \<Rightarrow> None,
                case r2 of
                  Inl x \<Rightarrow> c\<lparr>openshiftRoutes := (openshiftRoutes c)\<lparr>current := ora\<rparr>\<rparr>
                | Inr v \<Rightarrow> c\<lparr>openshiftRoutes := (openshiftRoutes c)\<lparr>current := ora\<rparr>,
                           autoscalingVersion := v\<rparr>,
                w\<lparr>env := e2,
                  trace := trace w @ [LogInfo 2 ''auto-detecting the configuration based on the environment'',
               ProbeRoutes (Inr ora), StoreGet (current (openshiftRoutes c)),
               LogInfo 1 ''openshift routes detected'', StoreSet ora] @
                    callback_events 0 (callbacks (onOpenShiftRoutesChange c)) e1 @
                    (case errD of None \<Rightarrow> []
                     | Some x \<Rightarrow>
                         [LogError x ''configuration change notification failed for callback'']) @
                    [ProbeHPA r2] @
                    (case r2 of Inl x \<Rightarrow> []
                     | Inr v \<Rightarrow> [LogInfo 2 ''autoscaling version detected''])\<rparr>)"
proof -
  have tr: "trace wD = trace w @ [LogInfo 2 ''auto-detecting the configuration based on the environment'',
               ProbeRoutes (Inr ora), StoreGet (current (openshiftRoutes c)),
               LogInfo 1 ''openshift routes detected'', StoreSet ora] @
              callback_events 0 (callbacks (onOpenShiftRoutesChange c)) e1"
    using onChange_Do_trace [OF assms(5)] by simp
  have "wD\<lparr>env := e2, trace := t\<rparr> = w\<lparr>env := e2, trace := t\<rparr>" for t
    by simp
  with tr assms show ?thesis
    by (cases r2; cases errD) (simp_all add: AutoDetect_def emit_def Get_unlocked Set_unlocked)
qed

lemma AutoDetect_returns_cases [consumes 1, case_names routes_error same_value new_value]:
  assumes "AutoDetect c w = Inr (err, c', w')"
  obtains
    (routes_error) ad e e1 where
      "autoDetect c = Some ad" "OpenShiftRoutesAvailability ad (env w) = (Inl e, e1)"
  | (same_value) ad ora e1 r2 e2 where
      "autoDetect c = Some ad" "\<not> locked (mu (openshiftRoutes c))"
      "OpenShiftRoutesAvailability ad (env w) = (Inr ora, e1)"
      "current (openshiftRoutes c) = ora" "HPAVersion ad e1 = (r2, e2)"
  | (new_value) ad ora e1 errD wD r2 e2 where
      "autoDetect c = Some ad" "\<not> locked (mu (openshiftRoutes c))"
      "OpenShiftRoutesAvailability ad (env w) = (Inr ora, e1)"
      "current (openshiftRoutes c) \<noteq> ora"
      "onChange_Do (onOpenShiftRoutesChange c)
         (w\<lparr>env := e1, trace := trace w @ [LogInfo 2 ''auto-detecting the configuration based on the environment'',
               ProbeRoutes (Inr ora), StoreGet (current (openshiftRoutes c)),
               LogInfo 1 ''openshift routes detected'', StoreSet ora]\<rparr>) = (errD, wD)"
      "HPAVersion ad (env wD) = (r2, e2)"
proof (cases "autoDetect c")
  case None
  with assms show ?thesis by (simp add: AutoDetect_nil_probe)
next
  case (Some ad)
  obtain r1 e1 where r1: "OpenShiftRoutesAvailability ad (env w) = (r1, e1)"
    by (cases "OpenShiftRoutesAvailability ad (env w)")
  show ?thesis
  proof (cases r1)
    case (Inl e)
    with Some r1 show ?thesis by (intro routes_error [of ad e e1]) simp_all
  next
    case (Inr ora)
    have free: "\<not> locked (mu (openshiftRoutes c))"
      using assms AutoDetect_blocked [of c ad w ora e1] Some r1 Inr by auto
    show ?thesis
    proof (cases "current (openshiftRoutes c) = ora")
      case True
      obtain r2 e2 where "HPAVersion ad e1 = (r2, e2)"
        by (cases "HPAVersion ad e1")
      with Some free r1 Inr True show ?thesis
        by (intro same_value [of ad ora e1 r2 e2]) simp_all
    next
      case False
      obtain errD wD where d: "onChange_Do (onOpenShiftRoutesChange c)
         (w\<lparr>env := e1, trace := trace w @ [LogInfo 2 ''auto-detecting the configuration based on the environment'',
               ProbeRoutes (Inr ora), StoreGet (current (openshiftRoutes c)),
               LogInfo 1 ''openshift routes detected'', StoreSet ora]\<rparr>) = (errD, wD)"
        by (cases "onChange_Do (onOpenShiftRoutesChange c)
         (w\<lparr>env := e1, trace := trace w @ [LogInfo 2 ''auto-detecting the configuration based on the environment'',
               ProbeRoutes (Inr ora), StoreGet (current (openshiftRoutes c)),
               LogInfo 1 ''openshift routes detected'', StoreSet ora]\<rparr>)")
      obtain r2 e2 where "HPAVersion ad (env wD) = (r2, e2)"
        by (cases "HPAVersion ad (env wD)")
      with Some free r1 Inr False d show ?thesis
        by (intro new_value [of ad ora e1 errD wD r2 e2]) simp_all
    qed
  qed
qed

text \<open>
  A pass that returns leaves the mutex free, so the condition \<open>\<not> locked\<close> of the theorems
  below holds again before the next pass.
\<close>

lemma AutoDetect_keeps_mutex_free:
  assumes "AutoDetect c w = Inr (err, c', w')"
      and "\<not> locked (mu (openshiftRoutes c))"
  shows "\<not> locked (mu (openshiftRoutes c'))"
  using assms(1)
proof (cases rule: AutoDetect_returns_cases)
  case (routes_error ad e e1)
  from AutoDetect_routes_error [OF this] assms show ?thesis by simp
next
  case (same_value ad ora e1 r2 e2)
  from AutoDetect_same_value [OF this] assms show ?thesis
    by (cases r2) auto
next
  case (new_value ad ora e1 errD wD r2 e2)
  from AutoDetect_new_value [OF this] assms show ?thesis
    by (cases r2) auto
qed

lemma AutoDetect_keeps_probe:
  assumes "AutoDetect c w = Inr (err, c', w')"
  shows "autoDetect c' = autoDetect c"
  using assms
proof (cases rule: AutoDetect_returns_cases)
  case (routes_error ad e e1)
  from AutoDetect_routes_error [OF this] assms show ?thesis by simp
next
  case (same_value ad ora e1 r2 e2)
  from AutoDetect_same_value [OF this] assms show ?thesis
    by (cases r2) auto
next
  case (new_value ad ora e1 errD wD r2 e2)
  from AutoDetect_new_value [OF this] assms show ?thesis
    by (cases r2) auto
qed

lemma AutoDetect_returns:
  assumes "autoDetect c = Some ad"
      and "\<not> locked (mu (openshiftRoutes c))"
  shows "\<exists>err c' w'. AutoDetect c w = Inr (err, c', w')"
proof -
  obtain r1 e1 where r1: "OpenShiftRoutesAvailability ad (env w) = (r1, e1)"
    by (cases "OpenShiftRoutesAvailability ad (env w)")
  show ?thesis
  proof (cases r1)
    case (Inl e)
    with AutoDetect_routes_error [OF assms(1), of w e e1] r1 show ?thesis by simp
  next
    case (Inr ora)
    show ?thesis
    proof (cases "current (openshiftRoutes c) = ora")
      case True
      obtain r2 e2 where "HPAVersion ad e1 = (r2, e2)"
        by (cases "HPAVersion ad e1")
      from AutoDetect_same_value [OF assms _ True this] r1 Inr show ?thesis by simp
    next
      case False
      obtain errD wD where d: "onChange_Do (onOpenShiftRoutesChange c)
             (w\<lparr>env := e1,
                trace := trace w @
                  [LogInfo 2 ''auto-detecting the configuration based on the environment'',
                   ProbeRoutes (Inr ora), StoreGet (current (openshiftRoutes c)),
                   LogInfo 1 ''openshift routes detected'', StoreSet ora]\<rparr>) = (errD, wD)"
        by (rule prod.exhaust)
      obtain r2 e2 where "HPAVersion ad (env wD) = (r2, e2)"
        by (cases "HPAVersion ad (env wD)")
      from AutoDetect_new_value [OF assms _ False d this] r1 Inr show ?thesis by simp
    qed
  qed
qed

text \<open>
  The periodic loop never stops on an error: on a \<^verbatim>\<open>Config\<close> with a probe and a free store,
  it has completed every one of its first \<open>n\<close> passes, for every \<open>n\<close>.
\<close>

lemma periodicAutoDetect_keeps_running:
  assumes "autoDetect c = Some ad"
      and "\<not> locked (mu (openshiftRoutes c))"
  shows "\<exists>c' w'. periodicAutoDetect n c w = Inr (c', w') \<and>
           autoDetect c' = Some ad \<and> \<not> locked (mu (openshiftRoutes c'))"
  using assms
proof (induction n arbitrary: c w)
  case 0
  then show ?case by simp
next
  case (Suc n)
  from AutoDetect_returns [OF Suc.prems] obtain err c1 w1 where
    r: "AutoDetect c w = Inr (err, c1, w1)"
    by blast
  have "autoDetect c1 = Some ad" "\<not> locked (mu (openshiftRoutes c1))"
    using AutoDetect_keeps_probe [OF r] AutoDetect_keeps_mutex_free [OF r] Suc.prems by simp_all
  from Suc.IH [OF this] r show ?case by simp
qed

text \<open>
The definitions that evaluating a pass on an example configuration unfolds.
\<close>

lemmas example_defs =
  example_config_def New_def with_probe_def default_options_def newOnChange_def
  newOpenShiftRoutesWrapper_def RegisterOpenShiftRoutesChangeCallback_def
  onChange_Register_def start_world_def callback_ok_def callback_failing_def
  probe_both_ok_def probe_routes_down_def probe_hpa_down_def probe_not_available_def
  DefaultAutoscalingVersion_def defaultAutoDetectFrequency_def

lemmas run_defs =
  AutoDetect_def StartAutoDetect_def emit_def onChange_Do_def
  openshiftRoutesWrapper_Get_def openshiftRoutesWrapper_Set_def
  Mutex_Lock_def Mutex_Unlock_def new_events_def OpenShiftRoutes_def AutoscalingVersion_def
  run_in_order_def

subsection \<open>Probe failures\<close>

text \<open>
  \<^bold>\<open>C10.\<close> When the routes probe fails, \<^verbatim>\<open>AutoDetect\<close> returns that error and the \<^verbatim>\<open>Config\<close> it
  leaves is the one it started from: the store holds its prior value, no \<^verbatim>\<open>Set\<close> was made,
  and the autoscaling version is untouched. This holds for every starting state that has a
  probe, also when the mutex of the store is held, since the store is not reached.
\<close>

theorem AutoDetect_routes_failure_leaves_Config_unchanged:
  assumes "autoDetect c = Some ad"
      and "fst (OpenShiftRoutesAvailability ad (env w)) = Inl e"
  shows "\<exists>c' w'. AutoDetect c w = Inr (Some e, c', w') \<and> c' = c \<and>
           openshiftRoutes c' = openshiftRoutes c \<and>
           AutoscalingVersion c' = AutoscalingVersion c \<and>
           store_sets (new_events w w') = []"
proof -
  obtain e1 where "OpenShiftRoutesAvailability ad (env w) = (Inl e, e1)"
    using assms(2) by (cases "OpenShiftRoutesAvailability ad (env w)") simp
  from AutoDetect_routes_error [OF assms(1) this] show ?thesis
    by simp
qed

theorem AutoDetect_routes_failure_leaves_Config_unchanged_witness:
  "autoDetect (example_config probe_routes_down [callback_ok 1]) = Some probe_routes_down \<and>
   fst (OpenShiftRoutesAvailability probe_routes_down (env start_world)) =
     Inl (Error ''routes probe failed'') \<and>
   (\<exists>w'. AutoDetect (example_config probe_routes_down [callback_ok 1]) start_world =
           Inr (Some (Error ''routes probe failed''),
                example_config probe_routes_down [callback_ok 1], w') \<and>
         store_sets (new_events start_world w') = [])"
  using AutoDetect_routes_failure_leaves_Config_unchanged
          [of "example_config probe_routes_down [callback_ok 1]" probe_routes_down start_world
              "Error ''routes probe failed''"]
  by (simp add: example_defs run_defs)

text \<open>
  \<^bold>\<open>C1.\<close> A pass on a \<^verbatim>\<open>Config\<close> with a probe and a free store returns. It queries the routes
  probe once, at the environment it starts in. It returns nil if and only if the routes probe
  and the autoscaling probe were both queried and both succeeded. When the routes probe
  fails, the pass returns that error, the autoscaling probe is not queried, and the
  environment is the one the routes probe left.
\<close>

theorem AutoDetect_nil_iff_both_probes_succeed:
  assumes "autoDetect c = Some ad"
      and "\<not> locked (mu (openshiftRoutes c))"
  shows "\<exists>err c' w'. AutoDetect c w = Inr (err, c', w') \<and>
           trace w' = trace w @ new_events w w' \<and>
           routes_probes (new_events w w') = [fst (OpenShiftRoutesAvailability ad (env w))] \<and>
           (err = None \<longleftrightarrow>
              (\<exists>ora v. routes_probes (new_events w w') = [Inr ora] \<and>
                       hpa_probes (new_events w w') = [Inr v])) \<and>
           (\<forall>e. routes_probes (new_events w w') = [Inl e] \<longrightarrow>
              err = Some e \<and> hpa_probes (new_events w w') = [] \<and>
              env w' = snd (OpenShiftRoutesAvailability ad (env w)))"
proof -
  obtain r1 e1 where r1: "OpenShiftRoutesAvailability ad (env w) = (r1, e1)"
    by (cases "OpenShiftRoutesAvailability ad (env w)")
  show ?thesis
  proof (cases r1)
    case (Inl e)
    show ?thesis
      using AutoDetect_routes_error [OF assms(1), of w e e1] r1 Inl by simp
  next
    case (Inr ora)
    show ?thesis
    proof (cases "current (openshiftRoutes c) = ora")
      case True
      obtain r2 e2 where r2: "HPAVersion ad e1 = (r2, e2)"
        by (cases "HPAVersion ad e1")
      show ?thesis
        using AutoDetect_same_value [OF assms, of w ora e1 r2 e2] r1 Inr True r2
        by (cases r2) simp_all
    next
      case False
      obtain errD wD where d: "onChange_Do (onOpenShiftRoutesChange c)
         (w\<lparr>env := e1, trace := trace w @ [LogInfo 2 ''auto-detecting the configuration based on the environment'',
               ProbeRoutes (Inr ora), StoreGet (current (openshiftRoutes c)),
               LogInfo 1 ''openshift routes detected'', StoreSet ora]\<rparr>) = (errD, wD)"
        by (cases "onChange_Do (onOpenShiftRoutesChange c)
         (w\<lparr>env := e1, trace := trace w @ [LogInfo 2 ''auto-detecting the configuration based on the environment'',
               ProbeRoutes (Inr ora), StoreGet (current (openshiftRoutes c)),
               LogInfo 1 ''openshift routes detected'', StoreSet ora]\<rparr>)")
      obtain r2 e2 where r2: "HPAVersion ad (env wD) = (r2, e2)"
        by (cases "HPAVersion ad (env wD)")
      show ?thesis
        using AutoDetect_new_value [OF assms, of w ora e1 errD wD r2 e2] r1 Inr False d r2
        by (cases r2; cases errD) simp_all
    qed
  qed
qed

theorem AutoDetect_nil_iff_both_probes_succeed_witness:
  "autoDetect (example_config probe_both_ok [callback_ok 1]) = Some probe_both_ok \<and>
   \<not> locked (mu (openshiftRoutes (example_config probe_both_ok [callback_ok 1]))) \<and>
   (\<exists>c' w'. AutoDetect (example_config probe_both_ok [callback_ok 1]) start_world =
              Inr (None, c', w') \<and>
            routes_probes (new_events start_world w') = [Inr OpenShiftRoutesAvailable] \<and>
            hpa_probes (new_events start_world w') = [Inr AutoscalingVersionV1]) \<and>
   autoDetect (example_config probe_routes_down [callback_ok 1]) = Some probe_routes_down \<and>
   \<not> locked (mu (openshiftRoutes (example_config probe_routes_down [callback_ok 1]))) \<and>
   (\<exists>c' w'. AutoDetect (example_config probe_routes_down [callback_ok 1]) start_world =
              Inr (Some (Error ''routes probe failed''), c', w') \<and>
            routes_probes (new_events start_world w') = [Inl (Error ''routes probe failed'')] \<and>
            hpa_probes (new_events start_world w') = [])"
  using AutoDetect_nil_iff_both_probes_succeed
          [of "example_config probe_both_ok [callback_ok 1]" probe_both_ok start_world]
        AutoDetect_nil_iff_both_probes_succeed
          [of "example_config probe_routes_down [callback_ok 1]" probe_routes_down start_world]
  by (simp add: example_defs run_defs)

text \<open>
  \<^bold>\<open>C2.\<close> In a pass whose routes probe succeeded with \<open>ora\<close> and whose autoscaling probe failed
  with \<open>e\<close>, \<^verbatim>\<open>AutoDetect\<close> returns \<open>e\<close>, and the store holds \<open>ora\<close> afterwards (the accessor
  \<^verbatim>\<open>OpenShiftRoutes\<close> returns it): an update made earlier in the pass is not rolled back. The
  autoscaling version is the one from before the pass.
\<close>

theorem AutoDetect_hpa_failure_keeps_routes_update:
  assumes "AutoDetect c w = Inr (err, c', w')"
      and "routes_probes (new_events w w') = [Inr ora]"
      and "hpa_probes (new_events w w') = [Inl e]"
  shows "err = Some e \<and> current (openshiftRoutes c') = ora \<and>
         OpenShiftRoutes c' = Inr (ora, c') \<and>
         AutoscalingVersion c' = AutoscalingVersion c"
  using assms(1)
proof (cases rule: AutoDetect_returns_cases)
  case (routes_error ad x e1)
  from AutoDetect_routes_error [OF this] assms show ?thesis by simp
next
  case (same_value ad ora' e1 r2 e2)
  from AutoDetect_same_value [OF this] assms same_value show ?thesis
    by (cases r2) (auto simp: OpenShiftRoutes_def Get_unlocked AutoscalingVersion_def)
next
  case (new_value ad ora' e1 errD wD r2 e2)
  from AutoDetect_new_value [OF new_value] assms new_value(1-4) show ?thesis
    by (cases r2; cases errD)
       (auto simp: OpenShiftRoutes_def Get_unlocked AutoscalingVersion_def)
qed

theorem AutoDetect_hpa_failure_keeps_routes_update_witness:
  "\<exists>err c' w'.
     AutoDetect (example_config probe_hpa_down [callback_ok 1]) start_world = Inr (err, c', w') \<and>
     routes_probes (new_events start_world w') = [Inr OpenShiftRoutesAvailable] \<and>
     hpa_probes (new_events start_world w') = [Inl (Error ''autoscaling probe failed'')] \<and>
     err = Some (Error ''autoscaling probe failed'') \<and>
     current (openshiftRoutes (example_config probe_hpa_down [callback_ok 1])) =
       OpenShiftRoutesNotAvailable \<and>
     current (openshiftRoutes c') = OpenShiftRoutesAvailable \<and>
     OpenShiftRoutes c' = Inr (OpenShiftRoutesAvailable, c') \<and>
     AutoscalingVersion c' = AutoscalingVersionV2"
proof -
  let ?c = "example_config probe_hpa_down [callback_ok 1]"
  have "\<exists>err c' w'. AutoDetect ?c start_world = Inr (err, c', w') \<and>
          routes_probes (new_events start_world w') = [Inr OpenShiftRoutesAvailable] \<and>
          hpa_probes (new_events start_world w') = [Inl (Error ''autoscaling probe failed'')]"
    by (simp add: example_defs run_defs)
  then obtain err c' w' where
    r: "AutoDetect ?c start_world = Inr (err, c', w')" and
    h1: "routes_probes (new_events start_world w') = [Inr OpenShiftRoutesAvailable]" and
    h2: "hpa_probes (new_events start_world w') = [Inl (Error ''autoscaling probe failed'')]"
    by blast
  have old: "current (openshiftRoutes ?c) = OpenShiftRoutesNotAvailable"
            "AutoscalingVersion ?c = AutoscalingVersionV2"
    by (simp_all add: example_defs run_defs)
  from AutoDetect_hpa_failure_keeps_routes_update [OF r h1 h2] old r h1 h2
  show ?thesis by simp
qed

subsection \<open>Change notification\<close>

text \<open>
  \<^bold>\<open>C3.\<close> When the routes probe returns the value the store holds, the pass makes no \<^verbatim>\<open>Set\<close>
  and invokes no callback: the store is unchanged, and the environment is what the two probes
  alone leave.
\<close>

theorem AutoDetect_same_value_no_Set_no_callback:
  assumes "autoDetect c = Some ad"
      and "\<not> locked (mu (openshiftRoutes c))"
      and "fst (OpenShiftRoutesAvailability ad (env w)) = Inr (current (openshiftRoutes c))"
  shows "\<exists>err c' w'. AutoDetect c w = Inr (err, c', w') \<and>
           trace w' = trace w @ new_events w w' \<and>
           store_sets (new_events w w') = [] \<and>
           callback_results (new_events w w') = [] \<and>
           openshiftRoutes c' = openshiftRoutes c \<and>
           env w' = snd (HPAVersion ad (snd (OpenShiftRoutesAvailability ad (env w))))"
proof -
  obtain e1 where r1: "OpenShiftRoutesAvailability ad (env w) = (Inr (current (openshiftRoutes c)), e1)"
    using assms(3) by (cases "OpenShiftRoutesAvailability ad (env w)") simp
  obtain r2 e2 where r2: "HPAVersion ad e1 = (r2, e2)"
    by (cases "HPAVersion ad e1")
  show ?thesis
    using AutoDetect_same_value [OF assms(1,2) r1 refl r2] r1 r2
    by (cases r2) simp_all
qed

theorem AutoDetect_same_value_no_Set_no_callback_witness:
  "autoDetect (example_config probe_not_available [callback_ok 1]) = Some probe_not_available \<and>
   \<not> locked (mu (openshiftRoutes (example_config probe_not_available [callback_ok 1]))) \<and>
   fst (OpenShiftRoutesAvailability probe_not_available (env start_world)) =
     Inr (current (openshiftRoutes (example_config probe_not_available [callback_ok 1]))) \<and>
   (\<exists>c' w'. AutoDetect (example_config probe_not_available [callback_ok 1]) start_world =
              Inr (None, c', w') \<and>
            store_sets (new_events start_world w') = [] \<and>
            callback_results (new_events start_world w') = [] \<and>
            env w' = [100, 200])"
  using AutoDetect_same_value_no_Set_no_callback
          [of "example_config probe_not_available [callback_ok 1]" probe_not_available start_world]
  by (simp add: example_defs run_defs)

text \<open>
  \<^bold>\<open>C4.\<close> Let callbacks \<open>fs\<close> be registered, one after the other, on a \<^verbatim>\<open>Config\<close> \<open>c\<close>. When the
  routes probe returns a value \<open>ora\<close> that differs from the stored one, the pass stores \<open>ora\<close>
  with one \<^verbatim>\<open>Set\<close>, and right after it invokes the callbacks of \<open>c\<close> followed by \<open>fs\<close>, each
  exactly once, in that order (positions \<open>0, 1, \<dots>\<close>); nothing before the \<^verbatim>\<open>Set\<close> and nothing
  after the callbacks is a \<^verbatim>\<open>Set\<close> or a callback. The environment at the end is that of the
  routes probe, then the callbacks in registration order, then the autoscaling probe.
\<close>

theorem AutoDetect_new_value_Set_then_callbacks_in_order:
  assumes "autoDetect c = Some ad"
      and "\<not> locked (mu (openshiftRoutes c))"
      and "fst (OpenShiftRoutesAvailability ad (env w)) = Inr ora"
      and "ora \<noteq> current (openshiftRoutes c)"
  shows "\<exists>err c' w' pre cbs post.
           AutoDetect (foldl RegisterOpenShiftRoutesChangeCallback c fs) w = Inr (err, c', w') \<and>
           current (openshiftRoutes c') = ora \<and>
           trace w' = trace w @ new_events w w' \<and>
           new_events w w' = pre @ [StoreSet ora] @ cbs @ post \<and>
           store_sets pre = [] \<and> callback_results pre = [] \<and>
           length cbs = length (callbacks (onOpenShiftRoutesChange c) @ fs) \<and>
           map fst (callback_results cbs) =
             [0..<length (callbacks (onOpenShiftRoutesChange c) @ fs)] \<and>
           store_sets post = [] \<and> callback_results post = [] \<and>
           env w' = snd (HPAVersion ad
                      (run_in_order (callbacks (onOpenShiftRoutesChange c) @ fs)
                         (snd (OpenShiftRoutesAvailability ad (env w)))))"
proof -
  let ?c = "foldl RegisterOpenShiftRoutesChangeCallback c fs"
  let ?fs = "callbacks (onOpenShiftRoutesChange c) @ fs"
  let ?pre = "[LogInfo 2 ''auto-detecting the configuration based on the environment'',
               ProbeRoutes (Inr ora), StoreGet (current (openshiftRoutes c)),
               LogInfo 1 ''openshift routes detected'']"
  have c: "autoDetect ?c = Some ad" "\<not> locked (mu (openshiftRoutes ?c))"
      "current (openshiftRoutes ?c) \<noteq> ora"
      "callbacks (onOpenShiftRoutesChange ?c) = ?fs"
      "openshiftRoutes ?c = openshiftRoutes c"
    using assms Register_foldl [of c fs] by auto
  obtain e1 where r1: "OpenShiftRoutesAvailability ad (env w) = (Inr ora, e1)"
    using assms(3) by (cases "OpenShiftRoutesAvailability ad (env w)") simp
  obtain errD wD where d: "onChange_Do (onOpenShiftRoutesChange ?c)
         (w\<lparr>env := e1,
            trace := trace w @
              [LogInfo 2 ''auto-detecting the configuration based on the environment'',
               ProbeRoutes (Inr ora), StoreGet (current (openshiftRoutes ?c)),
               LogInfo 1 ''openshift routes detected'', StoreSet ora]\<rparr>) = (errD, wD)"
    by (cases "onChange_Do (onOpenShiftRoutesChange ?c)
         (w\<lparr>env := e1,
            trace := trace w @
              [LogInfo 2 ''auto-detecting the configuration based on the environment'',
               ProbeRoutes (Inr ora), StoreGet (current (openshiftRoutes ?c)),
               LogInfo 1 ''openshift routes detected'', StoreSet ora]\<rparr>)")
  obtain r2 e2 where r2: "HPAVersion ad (env wD) = (r2, e2)"
    by (cases "HPAVersion ad (env wD)")
  have envD: "env wD = run_in_order ?fs e1"
    using onChange_Do_env [OF d] c(4) by simp
  let ?cbs = "callback_events 0 ?fs e1"
  let ?post = "(case errD of None \<Rightarrow> []
                | Some x \<Rightarrow> [LogError x ''configuration change notification failed for callback'']) @
               [ProbeHPA r2] @
               (case r2 of Inl x \<Rightarrow> [] | Inr v \<Rightarrow> [LogInfo 2 ''autoscaling version detected''])"
  let ?c' = "case r2 of
                  Inl x \<Rightarrow> ?c\<lparr>openshiftRoutes := (openshiftRoutes ?c)\<lparr>current := ora\<rparr>\<rparr>
                | Inr v \<Rightarrow> ?c\<lparr>openshiftRoutes := (openshiftRoutes ?c)\<lparr>current := ora\<rparr>,
                           autoscalingVersion := v\<rparr>"
  let ?w' = "w\<lparr>env := e2, trace := trace w @ ?pre @ [StoreSet ora] @ ?cbs @ ?post\<rparr>"
  have post: "store_sets ?post = []" "callback_results ?post = []"
    by (cases r2; cases errD; simp)+
  have res: "AutoDetect ?c w = Inr (case r2 of Inl x \<Rightarrow> Some x | Inr v \<Rightarrow> None, ?c', ?w')"
    using AutoDetect_new_value [OF c(1,2) r1 c(3) d r2] c(4,5) by simp
  have ne: "new_events w ?w' = ?pre @ [StoreSet ora] @ ?cbs @ ?post"
    by simp
  have tr: "trace ?w' = trace w @ new_events w ?w'"
    by simp
  have cur: "current (openshiftRoutes ?c') = ora"
    by (cases r2) simp_all
  have envw: "env ?w' = snd (HPAVersion ad
                      (run_in_order ?fs (snd (OpenShiftRoutesAvailability ad (env w)))))"
    using r1 r2 envD by simp
  have pre: "store_sets ?pre = []" "callback_results ?pre = []" by simp_all
  have cbs: "length ?cbs = length ?fs" "map fst (callback_results ?cbs) = [0..<length ?fs]"
    using callback_events_indices [of 0 ?fs e1] by simp_all
  show ?thesis
    apply (rule exI [of _ "case r2 of Inl x \<Rightarrow> Some x | Inr v \<Rightarrow> None"])
    apply (rule exI [of _ ?c'])
    apply (rule exI [of _ ?w'])
    apply (rule exI [of _ ?pre])
    apply (rule exI [of _ ?cbs])
    apply (rule exI [of _ ?post])
    apply (intro conjI)
    apply (rule res)
    apply (rule cur)
    apply (rule tr)
    apply (rule ne)
    apply (rule pre(1))
    apply (rule pre(2))
    apply (rule cbs(1))
    apply (rule cbs(2))
    apply (rule post(1))
    apply (rule post(2))
    apply (rule envw)
    done
qed

theorem AutoDetect_new_value_Set_then_callbacks_in_order_witness:
  "autoDetect (New [with_probe probe_both_ok]) = Some probe_both_ok \<and>
   \<not> locked (mu (openshiftRoutes (New [with_probe probe_both_ok]))) \<and>
   fst (OpenShiftRoutesAvailability probe_both_ok (env start_world)) =
     Inr OpenShiftRoutesAvailable \<and>
   OpenShiftRoutesAvailable \<noteq> current (openshiftRoutes (New [with_probe probe_both_ok])) \<and>
   (\<exists>err c' w'.
      AutoDetect (foldl RegisterOpenShiftRoutesChangeCallback (New [with_probe probe_both_ok])
                    [callback_ok 1, callback_failing 2, callback_ok 3]) start_world =
        Inr (err, c', w') \<and>
      current (openshiftRoutes c') = OpenShiftRoutesAvailable \<and>
      store_sets (new_events start_world w') = [OpenShiftRoutesAvailable] \<and>
      callback_results (new_events start_world w') =
        [(0, None), (1, Some (Error ''callback failed'')), (2, None)] \<and>
      env w' = [100, 1, 2, 3, 200])"
  using AutoDetect_new_value_Set_then_callbacks_in_order
          [of "New [with_probe probe_both_ok]" probe_both_ok start_world
              OpenShiftRoutesAvailable "[callback_ok 1, callback_failing 2, callback_ok 3]"]
  by (simp add: example_defs run_defs)

text \<open>
  \<^bold>\<open>C5.\<close> In a pass in which callback \<open>k\<close> returned an error and the autoscaling probe
  succeeded (the routes probe then succeeded too, or no callback would have run), every
  registered callback was still invoked, once and in registration order, the ones after \<open>k\<close>
  included; the failed notification was logged; and \<^verbatim>\<open>AutoDetect\<close> returned nil.
\<close>

theorem AutoDetect_callback_failure_is_independent:
  assumes "AutoDetect c w = Inr (err, c', w')"
      and "(k, Some x) \<in> set (callback_results (new_events w w'))"
      and "hpa_probes (new_events w w') = [Inr v]"
  shows "err = None \<and>
         (\<exists>ora. routes_probes (new_events w w') = [Inr ora]) \<and>
         map fst (callback_results (new_events w w')) =
           [0..<length (callbacks (onOpenShiftRoutesChange c))] \<and>
         k < length (callbacks (onOpenShiftRoutesChange c)) \<and>
         (\<exists>y. LogError y ''configuration change notification failed for callback''
                 \<in> set (new_events w w'))"
  using assms(1)
proof (cases rule: AutoDetect_returns_cases)
  case (routes_error ad y e1)
  from AutoDetect_routes_error [OF this] assms(1)
  have "callback_results (new_events w w') = []"
    by auto
  with assms(2) show ?thesis by simp
next
  case (same_value ad ora' e1 r2 e2)
  from AutoDetect_same_value [OF this] assms(1)
  have "callback_results (new_events w w') = []"
    by (cases r2) auto
  with assms(2) show ?thesis by simp
next
  case (new_value ad ora e1 errD wD r2 e2)
  let ?L = "callback_events 0 (callbacks (onOpenShiftRoutesChange c)) e1"
  let ?post = "(case errD of None \<Rightarrow> []
                | Some x \<Rightarrow> [LogError x ''configuration change notification failed for callback'']) @
               [ProbeHPA r2] @
               (case r2 of Inl x \<Rightarrow> [] | Inr v \<Rightarrow> [LogInfo 2 ''autoscaling version detected''])"
  have w': "err = (case r2 of Inl x \<Rightarrow> Some x | Inr v \<Rightarrow> None)"
       "new_events w w' = [LogInfo 2 ''auto-detecting the configuration based on the environment'',
               ProbeRoutes (Inr ora), StoreGet (current (openshiftRoutes c)),
               LogInfo 1 ''openshift routes detected'', StoreSet ora] @ ?L @ ?post"
    using AutoDetect_new_value [OF new_value] assms(1) by simp_all
  have post: "callback_results ?post = []"
    by (cases r2; cases errD; simp)
  have cr: "callback_results (new_events w w') = callback_results ?L"
    using w'(2) post by simp
  have r2: "r2 = Inr v"
    using assms(3) w'(2) by (cases r2; cases errD; simp)
  have idx: "map fst (callback_results ?L) = [0..<length (callbacks (onOpenShiftRoutesChange c))]"
    using callback_events_indices [of 0 "callbacks (onOpenShiftRoutesChange c)" e1] by simp
  have mem: "(k, Some x) \<in> set (callback_results ?L)"
    using assms(2) cr by simp
  then have "Some x \<in> snd ` set (callback_results ?L)"
    by force
  then have failed: "errD \<noteq> None"
    using onChange_Do_error [OF new_value(5)] by auto
  from mem have "k \<in> set (map fst (callback_results ?L))"
    by force
  then have k: "k < length (callbacks (onOpenShiftRoutesChange c))"
    using idx by simp
  obtain y where "errD = Some y" using failed by auto
  then have "LogError y ''configuration change notification failed for callback''
               \<in> set (new_events w w')"
    using w'(2) by simp
  then have "\<exists>y. LogError y ''configuration change notification failed for callback''
               \<in> set (new_events w w')"
    by (rule exI [of "\<lambda>y. LogError y ''configuration change notification failed for callback''
               \<in> set (new_events w w')" y])
  moreover have "err = None" using w'(1) r2 by simp
  moreover have "routes_probes (new_events w w') = [Inr ora]"
    using w'(2) r2 by (cases errD) simp_all
  ultimately show ?thesis
    using cr idx k by simp
qed

theorem AutoDetect_callback_failure_is_independent_witness:
  "\<exists>err c' w'.
     AutoDetect (example_config probe_both_ok [callback_ok 1, callback_failing 2, callback_ok 3])
       start_world = Inr (err, c', w') \<and>
     (1, Some (Error ''callback failed'')) \<in> set (callback_results (new_events start_world w')) \<and>
     hpa_probes (new_events start_world w') = [Inr AutoscalingVersionV1] \<and>
     err = None \<and>
     callback_results (new_events start_world w') =
       [(0, None), (1, Some (Error ''callback failed'')), (2, None)] \<and>
     map fst (callback_results (new_events start_world w')) =
       [0..<length (callbacks (onOpenShiftRoutesChange
          (example_config probe_both_ok [callback_ok 1, callback_failing 2, callback_ok 3])))]"
proof -
  let ?c = "example_config probe_both_ok [callback_ok 1, callback_failing 2, callback_ok 3]"
  have "\<exists>err c' w'. AutoDetect ?c start_world = Inr (err, c', w') \<and>
          callback_results (new_events start_world w') =
            [(0, None), (1, Some (Error ''callback failed'')), (2, None)] \<and>
          hpa_probes (new_events start_world w') = [Inr AutoscalingVersionV1]"
    by (simp add: example_defs run_defs)
  then obtain err c' w' where
    r: "AutoDetect ?c start_world = Inr (err, c', w')" and
    h1: "callback_results (new_events start_world w') =
            [(0, None), (1, Some (Error ''callback failed'')), (2, None)]" and
    h2: "hpa_probes (new_events start_world w') = [Inr AutoscalingVersionV1]"
    by blast
  have mem: "(1, Some (Error ''callback failed'')) \<in> set (callback_results (new_events start_world w'))"
    using h1 by simp
  from AutoDetect_callback_failure_is_independent [OF r mem h2] r mem h1 h2
  show ?thesis by blast
qed

subsection \<open>The autoscaling version\<close>

text \<open>
  \<^bold>\<open>C7.\<close> In a pass whose autoscaling probe was queried and returned \<open>v\<close> (the routes probe
  then succeeded as well, so both probes succeeded), \<^verbatim>\<open>AutoDetect\<close> returns nil and \<^verbatim>\<open>AutoscalingVersion\<close> returns \<open>v\<close>
  afterwards, whatever version was stored before. After the probe the pass only writes a log
  line: no callback follows the update of this field.
\<close>

theorem AutoDetect_stores_probed_autoscaling_version:
  assumes "AutoDetect c w = Inr (err, c', w')"
      and "hpa_probes (new_events w w') = [Inr v]"
  shows "err = None \<and> AutoscalingVersion c' = v \<and>
         (\<exists>ora. routes_probes (new_events w w') = [Inr ora]) \<and>
         (\<exists>pre. new_events w w' =
                  pre @ [ProbeHPA (Inr v), LogInfo 2 ''autoscaling version detected''] \<and>
                hpa_probes pre = [])"
  using assms(1)
proof (cases rule: AutoDetect_returns_cases)
  case (routes_error ad x e1)
  from AutoDetect_routes_error [OF this] assms show ?thesis by simp
next
  case (same_value ad ora' e1 r2 e2)
  from AutoDetect_same_value [OF this] assms same_value show ?thesis
    by (cases r2) (auto simp: AutoscalingVersion_def)
next
  case (new_value ad ora e1 errD wD r2 e2)
  let ?pre = "[LogInfo 2 ''auto-detecting the configuration based on the environment'',
               ProbeRoutes (Inr ora), StoreGet (current (openshiftRoutes c)),
               LogInfo 1 ''openshift routes detected'', StoreSet ora] @ callback_events 0 (callbacks (onOpenShiftRoutesChange c)) e1 @
      (case errD of None \<Rightarrow> []
       | Some x \<Rightarrow> [LogError x ''configuration change notification failed for callback''])"
  have pre: "hpa_probes ?pre = []" by (cases errD) simp_all
  from AutoDetect_new_value [OF new_value] assms
  have "err = None \<and> AutoscalingVersion c' = v \<and>
        routes_probes (new_events w w') = [Inr ora] \<and>
        new_events w w' = ?pre @ [ProbeHPA (Inr v), LogInfo 2 ''autoscaling version detected'']"
    by (cases r2; cases errD) (auto simp: AutoscalingVersion_def)
  with pre show ?thesis by blast
qed

theorem AutoDetect_stores_probed_autoscaling_version_witness:
  "\<exists>err c' w'.
     AutoDetect (example_config probe_both_ok [callback_ok 1]) start_world = Inr (err, c', w') \<and>
     hpa_probes (new_events start_world w') = [Inr AutoscalingVersionV1] \<and>
     err = None \<and>
     AutoscalingVersion (example_config probe_both_ok [callback_ok 1]) = AutoscalingVersionV2 \<and>
     AutoscalingVersion c' = AutoscalingVersionV1"
proof -
  let ?c = "example_config probe_both_ok [callback_ok 1]"
  have "\<exists>err c' w'. AutoDetect ?c start_world = Inr (err, c', w') \<and>
          hpa_probes (new_events start_world w') = [Inr AutoscalingVersionV1]"
    by (simp add: example_defs run_defs)
  then obtain err c' w' where
    r: "AutoDetect ?c start_world = Inr (err, c', w')" and
    h: "hpa_probes (new_events start_world w') = [Inr AutoscalingVersionV1]"
    by blast
  have old: "AutoscalingVersion ?c = AutoscalingVersionV2"
    by (simp add: example_defs run_defs)
  from AutoDetect_stores_probed_autoscaling_version [OF r h] old r h
  show ?thesis by blast
qed

subsection \<open>Start-up\<close>

text \<open>
  \<^bold>\<open>C6.\<close> \<^verbatim>\<open>StartAutoDetect\<close> runs one pass and returns what that pass returned, error or nil,
  with the \<^verbatim>\<open>Config\<close> as the pass left it; and in both cases it has launched the goroutine of
  the periodic loop, after the pass and before returning.
\<close>

theorem StartAutoDetect_returns_first_error_and_launches_loop:
  assumes "AutoDetect c w = Inr (err, c', w')"
  shows "StartAutoDetect c w = Inr (err, c', w'\<lparr>trace := trace w' @ [GoPeriodicAutoDetect]\<rparr>)"
  using assms by (simp add: StartAutoDetect_def emit_def)

theorem StartAutoDetect_returns_first_error_and_launches_loop_witness:
  "\<exists>c1 w1 c2 w2.
     AutoDetect (example_config probe_hpa_down [callback_ok 1]) start_world =
       Inr (Some (Error ''autoscaling probe failed''), c1, w1) \<and>
     StartAutoDetect (example_config probe_hpa_down [callback_ok 1]) start_world =
       Inr (Some (Error ''autoscaling probe failed''), c1,
            w1\<lparr>trace := trace w1 @ [GoPeriodicAutoDetect]\<rparr>) \<and>
     AutoDetect (example_config probe_both_ok [callback_ok 1]) start_world =
       Inr (None, c2, w2) \<and>
     StartAutoDetect (example_config probe_both_ok [callback_ok 1]) start_world =
       Inr (None, c2, w2\<lparr>trace := trace w2 @ [GoPeriodicAutoDetect]\<rparr>)"
proof -
  have "\<exists>c1 w1. AutoDetect (example_config probe_hpa_down [callback_ok 1]) start_world =
       Inr (Some (Error ''autoscaling probe failed''), c1, w1)"
    by (simp add: example_defs run_defs)
  then obtain c1 w1 where
    r1: "AutoDetect (example_config probe_hpa_down [callback_ok 1]) start_world =
           Inr (Some (Error ''autoscaling probe failed''), c1, w1)"
    by blast
  have "\<exists>c2 w2. AutoDetect (example_config probe_both_ok [callback_ok 1]) start_world =
       Inr (None, c2, w2)"
    by (simp add: example_defs run_defs)
  then obtain c2 w2 where
    r2: "AutoDetect (example_config probe_both_ok [callback_ok 1]) start_world =
           Inr (None, c2, w2)"
    by blast
  from StartAutoDetect_returns_first_error_and_launches_loop [OF r1]
       StartAutoDetect_returns_first_error_and_launches_loop [OF r2] r1 r2
  show ?thesis by blast
qed

end
